theory Spec2Isabelle
  imports Main "HOL-Library.Sublist"
begin

section \<open>Skardu Organic Store: cart, session, route dispatch and checkout\<close>

text \<open>
  A shallow embedding of the state-holding code of the storefront (the React module held in
  \<^verbatim>\<open>src/DEPLOYMENT.md\<close>, from line 116 on): \<^verbatim>\<open>CartProvider\<close>, \<^verbatim>\<open>AuthProvider\<close>,
  \<^verbatim>\<open>App.renderPage\<close> and \<^verbatim>\<open>CheckoutPage\<close>.

  Conventions of the embedding.
  \<^item> A React state variable is a field of a state record; a setter call is a record update.
    A setter called with an updater function (\<^verbatim>\<open>setCartItems(prevItems => ...)\<close>) is the
    updater itself, a function from the previous value to the next one.
  \<^item> A handler built during a render closes over the values the state variables had in
    that render. Where a handler reads such a variable, the model takes the captured value
    as an explicit first argument, apart from the state the setters write to.
  \<^item> TypeScript \<^verbatim>\<open>number\<close> is \<^typ>\<open>int\<close> for the ids, prices and quantities of the
    store: they are integers (quantities only ever change by one or are set from such
    values), far below the range where a double stops being exact. The product id parsed
    from a route has no such bound and is modelled as a double.
  \<^item> \<^verbatim>\<open>localStorage\<close> is two optional values, one per key; the JSON text in between
    (\<^verbatim>\<open>JSON.stringify\<close>, \<^verbatim>\<open>JSON.parse\<close>) is not modelled.
  \<^item> The declarations of \<^verbatim>\<open>./types\<close> are not part of the sources at hand; the records
    below carry the fields the code reads and writes.
\<close>

subsection \<open>Cart (\<^verbatim>\<open>CartProvider\<close>, lines 125-171)\<close>

record Product =
  id' :: int
  name :: string
  category :: string
  price :: int
  originalPrice :: "int option"
  rating :: int
  imageUrl :: string
  imageUrls :: "string list"
  benefits :: "string list"
  description :: string

record CartItem = Product +
  quantity :: int

text \<open>\<^verbatim>\<open>{ ...product, quantity: 1 }\<close>: the product's fields, extended by a quantity.\<close>

definition withQuantity :: "Product \<Rightarrow> int \<Rightarrow> CartItem" where
  "withQuantity product q = Product.extend product (CartItem.fields q)"

definition addToCart :: "Product \<Rightarrow> CartItem list \<Rightarrow> CartItem list" where
  "addToCart product prevItems =
     (case find (\<lambda>item. id' item = id' product) prevItems of
        Some existingItem \<Rightarrow>
          map (\<lambda>item. if id' item = id' product
                       then item\<lparr>quantity := quantity item + 1\<rparr> else item) prevItems
      | None \<Rightarrow> prevItems @ [withQuantity product 1])"

definition removeFromCart :: "int \<Rightarrow> CartItem list \<Rightarrow> CartItem list" where
  "removeFromCart productId prevItems = filter (\<lambda>item. id' item \<noteq> productId) prevItems"

definition updateQuantity :: "int \<Rightarrow> int \<Rightarrow> CartItem list \<Rightarrow> CartItem list" where
  "updateQuantity productId quantity' prevItems =
     (if quantity' \<le> 0 then removeFromCart productId prevItems
      else map (\<lambda>item. if id' item = productId
                        then item\<lparr>quantity := quantity'\<rparr> else item) prevItems)"

definition clearCart :: "CartItem list \<Rightarrow> CartItem list" where
  "clearCart prevItems = []"

text \<open>\<^verbatim>\<open>Array.prototype.reduce\<close> with an initial value is a left fold.\<close>

definition cartCount :: "CartItem list \<Rightarrow> int" where
  "cartCount cartItems = foldl (\<lambda>count item. count + quantity item) 0 cartItems"

definition cartTotal :: "CartItem list \<Rightarrow> int" where
  "cartTotal cartItems = foldl (\<lambda>total item. total + price item * quantity item) 0 cartItems"

text \<open>The operations a user of the cart context can invoke, and the carts they lead to.\<close>

datatype CartOp =
    AddToCart Product
  | RemoveFromCart int
  | UpdateQuantity int int
  | ClearCart

fun applyCartOp :: "CartOp \<Rightarrow> CartItem list \<Rightarrow> CartItem list" where
  "applyCartOp (AddToCart product) items = addToCart product items"
| "applyCartOp (RemoveFromCart productId) items = removeFromCart productId items"
| "applyCartOp (UpdateQuantity productId q) items = updateQuantity productId q items"
| "applyCartOp ClearCart items = clearCart items"

text \<open>The cart after a sequence of operations, the first of the list first;
  \<^verbatim>\<open>useState<CartItem[]>([])\<close> starts from the empty cart.\<close>

definition runCart :: "CartOp list \<Rightarrow> CartItem list" where
  "runCart ops = foldl (\<lambda>items op. applyCartOp op items) [] ops"

definition addAll :: "Product list \<Rightarrow> CartItem list" where
  "addAll products = foldl (\<lambda>items product. addToCart product items) [] products"

subsection \<open>Session and registry (\<^verbatim>\<open>AuthProvider\<close>, lines 178-228)\<close>

record User =
  name :: string
  email :: string
  password :: "string option"

text \<open>The two state variables of the provider and the two keys of \<^verbatim>\<open>localStorage\<close>.\<close>

record AuthState =
  currentUser :: "User option"
  users :: "User list"
  stored_users :: "User list option"
  stored_currentUser :: "User option"

definition initialAuth :: AuthState where
  "initialAuth = \<lparr>currentUser = None, users = [], stored_users = None, stored_currentUser = None\<rparr>"

text \<open>
  \<^verbatim>\<open>login\<close> reads \<^verbatim>\<open>users\<close>, a constant of the render that built the handler: the
  argument \<open>users_r\<close>. It writes \<^verbatim>\<open>currentUser\<close> and the key \<^verbatim>\<open>currentUser\<close>.
\<close>

definition login :: "User list \<Rightarrow> string \<Rightarrow> string option \<Rightarrow> AuthState \<Rightarrow> bool \<times> AuthState" where
  "login users_r email' password' s =
     (case find (\<lambda>u. email u = email' \<and> password u = password') users_r of
        Some user \<Rightarrow>
          (let userToStore = \<lparr>name = name user, email = email user, password = None\<rparr>
           in (True, s\<lparr>currentUser := Some userToStore, stored_currentUser := Some userToStore\<rparr>))
      | None \<Rightarrow> (False, s))"

definition logout :: "AuthState \<Rightarrow> AuthState" where
  "logout s = s\<lparr>currentUser := None, stored_currentUser := None\<rparr>"

text \<open>
  \<^verbatim>\<open>register\<close> reads the same captured \<^verbatim>\<open>users\<close>, and the \<^verbatim>\<open>login\<close> it calls on
  line 221 is the handler of the same render, so it still reads the captured list, not
  \<^verbatim>\<open>updatedUsers\<close>. The result of that call is dropped.
\<close>

definition register :: "User list \<Rightarrow> string \<Rightarrow> string \<Rightarrow> string option \<Rightarrow> AuthState \<Rightarrow> bool \<times> AuthState" where
  "register users_r name' email' password' s =
     (if list_ex (\<lambda>u. email u = email') users_r then (False, s)
      else
        (let newUser = \<lparr>name = name', email = email', password = password'\<rparr>;
             updatedUsers = users_r @ [newUser];
             s1 = s\<lparr>users := updatedUsers, stored_users := Some updatedUsers\<rparr>;
             s2 = snd (login users_r email' password' s1)
         in (True, s2)))"

text \<open>
  The context value of a render in state \<open>s\<close>
  (\<^verbatim>\<open>const value = { currentUser, login, logout, register }\<close>): its handlers have
  captured \<open>users s\<close>. Every event handler of the application runs the handlers of the
  latest render.
\<close>

definition ctx_login :: "string \<Rightarrow> string option \<Rightarrow> AuthState \<Rightarrow> bool \<times> AuthState" where
  "ctx_login email' password' s = login (users s) email' password' s"

definition ctx_register :: "string \<Rightarrow> string \<Rightarrow> string option \<Rightarrow> AuthState \<Rightarrow> bool \<times> AuthState" where
  "ctx_register name' email' password' s = register (users s) name' email' password' s"

datatype AuthOp =
    Register string string "string option"
  | Login string "string option"
  | Logout

fun applyAuthOp :: "AuthOp \<Rightarrow> AuthState \<Rightarrow> AuthState" where
  "applyAuthOp (Register n e p) s = snd (ctx_register n e p s)"
| "applyAuthOp (Login e p) s = snd (ctx_login e p s)"
| "applyAuthOp Logout s = logout s"

definition runAuth :: "AuthOp list \<Rightarrow> AuthState" where
  "runAuth ops = foldl (\<lambda>s op. applyAuthOp op s) initialAuth ops"

text \<open>What the spec calls the redacted form of an identity: name and email, no password.\<close>

definition redacted :: "User \<Rightarrow> User" where
  "redacted u = \<lparr>name = name u, email = email u, password = None\<rparr>"

subsection \<open>Route dispatch (\<^verbatim>\<open>App.renderPage\<close>, lines 1370-1402)\<close>

text \<open>
  The product id of a route is parsed from text that a user can type into the location
  bar, so it is not bounded by the catalogue: it is a double, here an integer value or
  positive infinity (a string of digits gives nothing else).
\<close>

datatype number = Num int | Infinity

text \<open>The page component chosen; of the props only the product id is kept.\<close>

datatype Page =
    ProductDetailPage number
  | ShopPage
  | AboutPage
  | ContactPage
  | CheckoutPage
  | AuthPage
  | RefundPolicyPage
  | PrivacyPolicyPage
  | TermsAndConditionsPage
  | HomePage

definition isDigit :: "char \<Rightarrow> bool" where
  "isDigit c = (c \<in> set ''0123456789'')"

definition digitValue :: "char \<Rightarrow> nat" where
  "digitValue c = of_char c - 48"

text \<open>The integer that a string of decimal digits denotes.\<close>

definition mathInt :: "string \<Rightarrow> nat" where
  "mathInt ds = foldl (\<lambda>acc c. 10 * acc + digitValue c) 0 ds"

text \<open>The number of binary digits of a natural number.\<close>

function bitLength :: "nat \<Rightarrow> nat" where
  "bitLength n = (if n = 0 then 0 else Suc (bitLength (n div 2)))"
  by pat_completeness auto
termination
  by (relation "measure (\<lambda>n. n)") auto

declare bitLength.simps [simp del]

text \<open>
  The double nearest to a natural number: exact up to \<open>2^53\<close>; above, the 53 leading
  binary digits are kept and the rest is rounded to nearest, a tie going to the even
  neighbour; a result of \<open>2^1024\<close> or more is infinity. This is the correctly rounded
  value, which is what the JavaScript engines compute for a decimal digit string.
\<close>

definition toDouble :: "nat \<Rightarrow> number" where
  "toDouble n =
     (if n \<le> 2 ^ 53 then Num (int n)
      else
        (let e = bitLength n - 53;
             q = n div 2 ^ e;
             r = n mod 2 ^ e;
             half = 2 ^ (e - 1);
             q' = (if half < r \<or> (r = half \<and> odd q) then q + 1 else q);
             v = q' * 2 ^ e
         in if 2 ^ 1024 \<le> v then Infinity else Num (int v)))"

text \<open>\<^verbatim>\<open>parseInt(s, 10)\<close> on a string of decimal digits, the only strings it is given here:
  the integer denoted, as a double.\<close>

definition parseInt :: "string \<Rightarrow> number" where
  "parseInt ds = toDouble (mathInt ds)"

text \<open>\<^verbatim>\<open>route.match(/^#\/product\/(\d+)$/)\<close>: the captured group, if the route matches.\<close>

definition productMatch :: "string \<Rightarrow> string option" where
  "productMatch route =
     (let pre = ''#/product/''; ds = drop (length pre) route
      in if take (length pre) route = pre \<and> ds \<noteq> [] \<and> list_all isDigit ds
         then Some ds else None)"

definition renderPage :: "string \<Rightarrow> Page" where
  "renderPage route =
     (case productMatch route of
        Some ds \<Rightarrow> ProductDetailPage (parseInt ds)
      | None \<Rightarrow>
          if route = ''#/shop'' then ShopPage
          else if route = ''#/about'' then AboutPage
          else if route = ''#/contact'' then ContactPage
          else if route = ''#/checkout'' then CheckoutPage
          else if route = ''#/auth'' then AuthPage
          else if route = ''#/refund-policy'' then RefundPolicyPage
          else if route = ''#/privacy-policy'' then PrivacyPolicyPage
          else if route = ''#/terms'' then TermsAndConditionsPage
          else HomePage)"

subsection \<open>Checkout (\<^verbatim>\<open>CheckoutPage\<close>, lines 900-951)\<close>

record BillingDetails =
  firstName :: string
  lastName :: string
  email :: string
  phone :: string
  address :: string
  city :: string
  state :: string
  zip' :: string

record PlacedOrder =
  details :: BillingDetails
  items :: "CartItem list"
  total :: int

text \<open>The cart of the context together with the two state variables of the page.\<close>

record CheckoutState =
  cartItems :: "CartItem list"
  placedOrder :: "PlacedOrder option"
  billingDetails :: BillingDetails

text \<open>A number in a template literal: the decimal digits, with a sign when negative.\<close>

function toString_nat :: "nat \<Rightarrow> string" where
  "toString_nat n =
     (if n < 10 then [''0123456789'' ! n]
      else toString_nat (n div 10) @ [''0123456789'' ! (n mod 10)])"
  by pat_completeness auto
termination
  by (relation "measure (\<lambda>n. n)") auto

declare toString_nat.simps [simp del]

definition toString :: "int \<Rightarrow> string" where
  "toString i = (if i < 0 then ''-'' @ toString_nat (nat (- i)) else toString_nat (nat i))"

definition nl :: string where
  "nl = [CHR 0x0A]"

text \<open>The body of the \<^verbatim>\<open>forEach\<close> on line 921: the message with one more line.\<close>

definition appendItemLine :: "string \<Rightarrow> CartItem \<Rightarrow> string" where
  "appendItemLine message item =
     message @ ''- '' @ Product.name item @ '' (x'' @ toString (quantity item) @ '') - Rs ''
       @ toString (price item * quantity item) @ nl"

definition constructStoreOrderMessage :: "BillingDetails \<Rightarrow> CartItem list \<Rightarrow> string" where
  "constructStoreOrderMessage bd cart =
     (let message = ''*New Order from Skardu Organic*'' @ nl @ nl;
          message = message @ ''*Customer Details:*'' @ nl;
          message = message @ ''Name: '' @ firstName bd @ '' '' @ lastName bd @ nl;
          message = message @ ''Email: '' @ email bd @ nl;
          message = message @ ''Phone: '' @ phone bd @ nl;
          message = message @ ''Address: '' @ address bd @ '', '' @ city bd @ '', ''
                      @ state bd @ '' '' @ zip' bd @ nl @ nl;
          message = message @ ''*Order Summary:*'' @ nl;
          message = foldl appendItemLine message cart;
          message = message @ nl @ ''*Total: Rs '' @ toString (cartTotal cart) @ ''*''
      in message)"

definition processOrder :: "CheckoutState \<Rightarrow> CheckoutState" where
  "processOrder s =
     s\<lparr>placedOrder := Some \<lparr>details = billingDetails s, items = cartItems s,
                             total = cartTotal (cartItems s)\<rparr>,
       cartItems := clearCart (cartItems s)\<rparr>"

text \<open>
  The two dispatch handlers return the URL given to \<^verbatim>\<open>window.open\<close> and the next state.
  \<^verbatim>\<open>encodeURIComponent\<close> belongs to the platform and is the parameter \<open>enc\<close>.
\<close>

definition handleWhatsAppOrder :: "(string \<Rightarrow> string) \<Rightarrow> CheckoutState \<Rightarrow> string \<times> CheckoutState" where
  "handleWhatsAppOrder enc s =
     (let message = enc (constructStoreOrderMessage (billingDetails s) (cartItems s));
          whatsappUrl = ''https://wa.me/923488875456?text='' @ message
      in (whatsappUrl, processOrder s))"

definition handleEmailOrder :: "(string \<Rightarrow> string) \<Rightarrow> CheckoutState \<Rightarrow> string \<times> CheckoutState" where
  "handleEmailOrder enc s =
     (let subject = enc ''New Order from Skardu Organic'';
          body = enc (filter (\<lambda>c. c \<noteq> CHR ''*'')
                   (constructStoreOrderMessage (billingDetails s) (cartItems s)));
          mailtoUrl = ''mailto:support@skarduorganic.com?subject='' @ subject @ ''&body='' @ body
      in (mailtoUrl, processOrder s))"

subsection \<open>Auxiliary notions used in the statements\<close>

text \<open>Whether a cart operation adds the product with the given id.\<close>

fun addsProduct :: "int \<Rightarrow> CartOp \<Rightarrow> bool" where
  "addsProduct productId (AddToCart product) = (id' product = productId)"
| "addsProduct productId op = False"

text \<open>A catalogue entry with the given id, name and price, for concrete carts.\<close>

definition sampleProduct :: "int \<Rightarrow> string \<Rightarrow> int \<Rightarrow> Product" where
  "sampleProduct i n p = \<lparr>id' = i, Product.name = n, category = [], price = p,
     originalPrice = None, rating = 0, imageUrl = [], imageUrls = [], benefits = [],
     description = []\<rparr>"


text \<open>The part of the order message that precedes the item lines, without its last
  line break: the title and the customer fields.\<close>

definition orderHeader :: "BillingDetails \<Rightarrow> string" where
  "orderHeader bd =
     ''*New Order from Skardu Organic*'' @ nl @ nl @ ''*Customer Details:*'' @ nl
     @ ''Name: '' @ firstName bd @ '' '' @ lastName bd @ nl
     @ ''Email: '' @ BillingDetails.email bd @ nl
     @ ''Phone: '' @ phone bd @ nl
     @ ''Address: '' @ address bd @ '', '' @ city bd @ '', '' @ state bd @ '' '' @ zip' bd @ nl @ nl
     @ ''*Order Summary:*''"

text \<open>
  The lines of a text, as \<^verbatim>\<open>split('\n')\<close> gives them: the pieces between line breaks.
  (The recursive call never gives the empty list; its branch is there for totality.)
\<close>

fun splitLines :: "string \<Rightarrow> string list" where
  "splitLines [] = [[]]"
| "splitLines (c # cs) =
     (if c = CHR 0x0A then [] # splitLines cs
      else (case splitLines cs of [] \<Rightarrow> [[c]] | l # ls \<Rightarrow> (c # l) # ls))"

text \<open>Billing details for concrete checkouts.\<close>

definition sampleBilling :: BillingDetails where
  "sampleBilling = \<lparr>firstName = ''Ali'', lastName = ''Khan'', email = ''ali@example.com'',
     phone = ''+923001234567'', address = ''1 Main Road'', city = ''Skardu'', state = ''GB'',
     zip' = ''16100''\<rparr>"

section \<open>Properties\<close>

subsection \<open>Cart\<close>

lemma addAll_snoc: "addAll (ps @ [x]) = addToCart x (addAll ps)"
  by (simp add: addAll_def)

lemma runCart_snoc: "runCart (ops @ [op]) = applyCartOp op (runCart ops)"
  by (simp add: runCart_def)

lemma find_None_iff_ids: "(find (\<lambda>item. id' item = k) cart = None) = (k \<notin> id' ` set cart)"
  by (induction cart) auto

lemma cartCount_sum: "cartCount cart = sum_list (map quantity cart)"
proof -
  have "foldl (\<lambda>count item. count + quantity item) a cart = a + sum_list (map quantity cart)" for a
    by (induction cart arbitrary: a) auto
  then show ?thesis by (simp add: cartCount_def)
qed

lemma cartTotal_sum: "cartTotal cart = sum_list (map (\<lambda>item. price item * quantity item) cart)"
proof -
  have "foldl (\<lambda>total item. total + price item * quantity item) a cart
          = a + sum_list (map (\<lambda>item. price item * quantity item) cart)" for a
    by (induction cart arbitrary: a) auto
  then show ?thesis by (simp add: cartTotal_def)
qed

lemma withQuantity_sel [simp]:
  "quantity (withQuantity p q) = q" "id' (withQuantity p q) = id' p"
  "price (withQuantity p q) = price p" "Product.name (withQuantity p q) = Product.name p"
  by (simp_all add: withQuantity_def Product.defs CartItem.defs)

lemma map_if_absent:
  "\<forall>item \<in> set cart. id' item \<noteq> k \<Longrightarrow>
   map (\<lambda>item. if id' item = k then f item else item) cart = cart"
  by (induction cart) auto

lemma cartCount_bump:
  "k \<in> id' ` set cart \<Longrightarrow> distinct (map id' cart) \<Longrightarrow>
   cartCount (map (\<lambda>item. if id' item = k then item\<lparr>quantity := quantity item + 1\<rparr> else item) cart)
     = cartCount cart + 1"
proof (induction cart)
  case Nil then show ?case by simp
next
  case (Cons a cart)
  show ?case
  proof (cases "id' a = k")
    case True
    with Cons.prems have "\<forall>item \<in> set cart. id' item \<noteq> k" by (auto simp: image_iff)
    then show ?thesis using True by (simp add: map_if_absent cartCount_sum)
  next
    case False
    with Cons show ?thesis by (auto simp: cartCount_sum)
  qed
qed

lemma ids_addToCart: "map id' (addToCart x cart) = (if id' x \<in> id' ` set cart then map id' cart else map id' cart @ [id' x])"
proof -
  have "map id' (map (\<lambda>item. if id' item = k then item\<lparr>quantity := quantity item + 1\<rparr> else item) cart) = map id' cart" for k
    by (induction cart) auto
  then show ?thesis
    by (auto simp: addToCart_def find_None_iff_ids split: option.splits)
      (metis find_None_iff_ids option.distinct(1))
qed

lemma distinct_addAll: "distinct (map id' (addAll ps))"
  by (induction ps rule: rev_induct) (auto simp: addAll_snoc ids_addToCart addAll_def)

lemma cartCount_addToCart: "cartCount (addToCart x cart) = cartCount cart + 1" if "distinct (map id' cart)"
proof (cases "find (\<lambda>item. id' item = id' x) cart")
  case None
  then show ?thesis by (simp add: addToCart_def cartCount_sum)
next
  case (Some a)
  then have "id' x \<in> id' ` set cart" using find_None_iff_ids [of "id' x" cart] by simp
  then show ?thesis using Some that by (simp add: addToCart_def cartCount_bump)
qed

lemma cartCount_addAll: "cartCount (addAll ps) = int (length ps)"
proof (induction ps rule: rev_induct)
  case Nil show ?case by (simp add: addAll_def cartCount_def)
next
  case (snoc x ps)
  then show ?case by (simp add: addAll_snoc cartCount_addToCart distinct_addAll)
qed


lemma ids_addAll: "id' ` set (addAll ps) = id' ` set ps"
proof (induction ps rule: rev_induct)
  case Nil show ?case by (simp add: addAll_def)
next
  case (snoc x ps)
  have "set (map id' (addToCart x (addAll ps))) = insert (id' x) (id' ` set (addAll ps))"
    by (auto simp: ids_addToCart)
  with snoc show ?case by (simp add: addAll_snoc)
qed

lemma quantity_addToCart:
  assumes "item \<in> set (addToCart x cart)"
  shows "(\<exists>old \<in> set cart. id' old = id' item \<and>
        quantity item = quantity old + (if id' x = id' item then 1 else 0))
   \<or> (id' x \<notin> id' ` set cart \<and> id' item = id' x \<and> quantity item = 1)"
proof (cases "find (\<lambda>item. id' item = id' x) cart")
  case None
  then have absent: "id' x \<notin> id' ` set cart" by (simp add: find_None_iff_ids)
  from assms None have "item \<in> set cart \<or> item = withQuantity x 1"
    by (auto simp: addToCart_def)
  then show ?thesis
  proof
    assume i: "item \<in> set cart"
    with absent have "id' x \<noteq> id' item" by (auto simp: image_iff)
    then have "id' item = id' item \<and>
        quantity item = quantity item + (if id' x = id' item then 1 else 0)" by simp
    with i show ?thesis by blast
  next
    assume "item = withQuantity x 1"
    with absent show ?thesis by simp
  qed
next
  case (Some a)
  with assms obtain old where old: "old \<in> set cart"
    "item = (if id' old = id' x then old\<lparr>quantity := quantity old + 1\<rparr> else old)"
    by (auto simp: addToCart_def)
  then have "id' old = id' item \<and>
        quantity item = quantity old + (if id' x = id' item then 1 else 0)"
    by (cases "id' old = id' x") auto
  with old(1) show ?thesis by blast
qed

lemma quantity_addAll:
  "item \<in> set (addAll ps) \<Longrightarrow> quantity item = int (count_list (map id' ps) (id' item))"
proof (induction ps arbitrary: item rule: rev_induct)
  case Nil then show ?case by (simp add: addAll_def)
next
  case (snoc x ps)
  from snoc.prems have "item \<in> set (addToCart x (addAll ps))" by (simp add: addAll_snoc)
  from quantity_addToCart [OF this] show ?case
  proof
    assume "\<exists>old \<in> set (addAll ps). id' old = id' item \<and>
        quantity item = quantity old + (if id' x = id' item then 1 else 0)"
    then obtain old where o: "old \<in> set (addAll ps)" "id' old = id' item"
      "quantity item = quantity old + (if id' x = id' item then 1 else 0)" by blast
    from snoc.IH [OF o(1)] o(2,3) show ?thesis by simp
  next
    assume a: "id' x \<notin> id' ` set (addAll ps) \<and> id' item = id' x \<and> quantity item = 1"
    then have "id' x \<notin> set (map id' ps)" by (simp add: ids_addAll)
    then have "count_list (map id' ps) (id' x) = 0" by simp
    with a show ?thesis by simp
  qed
qed

lemma length_as_counts: "int (length xs) = (\<Sum>k \<in> set xs. int (count_list xs k))"
proof -
  have "sum (count_list xs) (set xs) = length xs" by (rule sum_count_set) simp_all
  then show ?thesis by (simp flip: of_nat_sum)
qed

lemma withQuantity_record:
  "withQuantity \<lparr>id' = a, Product.name = b, category = c, price = d, originalPrice = e,
     rating = f, imageUrl = g, imageUrls = h, benefits = i, description = j\<rparr> q
   = \<lparr>id' = a, Product.name = b, category = c, price = d, originalPrice = e,
     rating = f, imageUrl = g, imageUrls = h, benefits = i, description = j, quantity = q\<rparr>"
  by (simp add: withQuantity_def Product.defs CartItem.defs)


text \<open>
  Claim C4. After any sequence of \<^verbatim>\<open>addToCart\<close> calls on the empty cart, \<^verbatim>\<open>cartCount\<close> is
  the number of calls, which is the sum over the distinct product ids of how often each was
  added; every line item's quantity is the number of calls for its id, and no id has two
  line items; \<^verbatim>\<open>cartTotal\<close> is the sum of price times quantity over the line items. A cart
  of two items (id 1, price 500, quantity 2) and (id 2, price 1200, quantity 1) has total
  2200 and count 3.
\<close>

theorem addToCart_sequence_totals:
  "cartCount (addAll ps) = int (length ps)
   \<and> int (length ps) = (\<Sum>k \<in> set (map id' ps). int (count_list (map id' ps) k))
   \<and> (\<forall>item \<in> set (addAll ps). quantity item = int (count_list (map id' ps) (id' item)))
   \<and> distinct (map id' (addAll ps))
   \<and> cartTotal (addAll ps) = (\<Sum>item \<leftarrow> addAll ps. price item * quantity item)
   \<and> cartTotal [a\<lparr>id' := 1, price := 500, quantity := 2\<rparr>, b\<lparr>id' := 2, price := 1200, quantity := 1\<rparr>] = 2200
   \<and> cartCount [a\<lparr>id' := 1, price := 500, quantity := 2\<rparr>, b\<lparr>id' := 2, price := 1200, quantity := 1\<rparr>] = 3"
proof -
  have c1: "cartCount (addAll ps) = int (length ps)" by (rule cartCount_addAll)
  have c2: "int (length ps) = (\<Sum>k \<in> set (map id' ps). int (count_list (map id' ps) k))"
    using length_as_counts [of "map id' ps"] by simp
  have c3: "\<forall>item \<in> set (addAll ps). quantity item = int (count_list (map id' ps) (id' item))"
    using quantity_addAll by blast
  have c4: "distinct (map id' (addAll ps))" by (rule distinct_addAll)
  have c5: "cartTotal (addAll ps) = (\<Sum>item \<leftarrow> addAll ps. price item * quantity item)"
    by (rule cartTotal_sum)
  have c6: "cartTotal [a\<lparr>id' := 1, price := 500, quantity := 2\<rparr>, b\<lparr>id' := 2, price := 1200, quantity := 1\<rparr>] = 2200"
    by (simp add: cartTotal_def)
  have c7: "cartCount [a\<lparr>id' := 1, price := 500, quantity := 2\<rparr>, b\<lparr>id' := 2, price := 1200, quantity := 1\<rparr>] = 3"
    by (simp add: cartCount_def)
  from c1 c2 c3 c4 c5 c6 c7 show ?thesis by (intro conjI)
qed


lemma removeFromCart_map:
  "removeFromCart p (map (\<lambda>item. if id' item = k then item\<lparr>quantity := f item\<rparr> else item) cart)
   = map (\<lambda>item. if id' item = k then item\<lparr>quantity := f item\<rparr> else item) (removeFromCart p cart)"
  by (induction cart) (auto simp: removeFromCart_def)

lemma removeFromCart_commute:
  "removeFromCart p (removeFromCart k cart) = removeFromCart k (removeFromCart p cart)"
  by (induction cart) (auto simp: removeFromCart_def)

lemma ids_removeFromCart: "id' ` set (removeFromCart p cart) = id' ` set cart - {p}"
  by (auto simp: removeFromCart_def)

lemma removeFromCart_addToCart:
  "removeFromCart p (addToCart x cart) =
     (if id' x = p then removeFromCart p cart else addToCart x (removeFromCart p cart))"
proof (cases "find (\<lambda>item. id' item = id' x) cart")
  case None
  then have absent: "id' x \<notin> id' ` set cart" by (simp add: find_None_iff_ids)
  then have "id' x \<notin> id' ` set (removeFromCart p cart)" by (simp add: ids_removeFromCart)
  then have "find (\<lambda>item. id' item = id' x) (removeFromCart p cart) = None"
    by (simp add: find_None_iff_ids)
  with None show ?thesis by (simp add: addToCart_def removeFromCart_def)
next
  case (Some a)
  then have present: "id' x \<in> id' ` set cart"
    using find_None_iff_ids [of "id' x" cart] by simp
  show ?thesis
  proof (cases "id' x = p")
    case True
    have "removeFromCart p (map (\<lambda>item. if id' item = p then item\<lparr>quantity := quantity item + 1\<rparr> else item) cart)
          = removeFromCart p cart"
      by (induction cart) (auto simp: removeFromCart_def)
    with Some True show ?thesis by (simp add: addToCart_def)
  next
    case False
    with present have "id' x \<in> id' ` set (removeFromCart p cart)"
      by (simp add: ids_removeFromCart)
    then obtain b where "find (\<lambda>item. id' item = id' x) (removeFromCart p cart) = Some b"
      using find_None_iff_ids [of "id' x" "removeFromCart p cart"] by (cases "find (\<lambda>item. id' item = id' x) (removeFromCart p cart)") auto
    with Some False show ?thesis
      by (simp add: addToCart_def removeFromCart_map)
  qed
qed

lemma removeFromCart_applyCartOp:
  "removeFromCart p (applyCartOp op cart) =
     (if addsProduct p op then removeFromCart p cart else applyCartOp op (removeFromCart p cart))"
proof (cases op)
  case (AddToCart x)
  then show ?thesis by (simp add: removeFromCart_addToCart)
next
  case (RemoveFromCart k)
  then show ?thesis by (simp add: removeFromCart_commute)
next
  case (UpdateQuantity k q)
  then show ?thesis
    by (simp add: updateQuantity_def removeFromCart_commute removeFromCart_map)
next
  case ClearCart
  then show ?thesis by (simp add: clearCart_def removeFromCart_def)
qed

lemma removeFromCart_runCart:
  "removeFromCart p (runCart ops) = runCart (filter (\<lambda>op. \<not> addsProduct p op) ops)"
proof (induction ops rule: rev_induct)
  case Nil
  show ?case by (simp add: runCart_def removeFromCart_def)
next
  case (snoc op ops)
  then show ?case by (simp add: runCart_snoc removeFromCart_applyCartOp)
qed

text \<open>
  Claim C3. With a quantity \<open>q \<le> 0\<close>, \<^verbatim>\<open>updateQuantity\<close> gives the same cart as
  \<^verbatim>\<open>removeFromCart\<close>: no line item for the product remains and the other items are kept as
  they are. On a cart reached by any sequence of cart operations the result is the cart
  that the same sequence yields once every addition of that product is left out, so count
  and total are those of a cart the product was never added to. With \<open>q > 0\<close> the line
  items for the product get quantity exactly \<open>q\<close> and all others stay as they are.
\<close>

theorem updateQuantity_nonpositive_is_removeFromCart:
  "(q \<le> 0 \<longrightarrow>
      updateQuantity p q cart = removeFromCart p cart
      \<and> p \<notin> id' ` set (updateQuantity p q cart)
      \<and> filter (\<lambda>item. id' item \<noteq> p) (updateQuantity p q cart) = filter (\<lambda>item. id' item \<noteq> p) cart
      \<and> updateQuantity p q (runCart ops) = runCart (filter (\<lambda>op. \<not> addsProduct p op) ops)
      \<and> cartCount (updateQuantity p q (runCart ops)) = cartCount (runCart (filter (\<lambda>op. \<not> addsProduct p op) ops))
      \<and> cartTotal (updateQuantity p q (runCart ops)) = cartTotal (runCart (filter (\<lambda>op. \<not> addsProduct p op) ops)))
   \<and> (0 < q \<longrightarrow>
      length (updateQuantity p q cart) = length cart
      \<and> (\<forall>i < length cart. updateQuantity p q cart ! i =
            (if id' (cart ! i) = p then (cart ! i)\<lparr>quantity := q\<rparr> else cart ! i)))"
proof (intro conjI impI)
  assume "q \<le> 0"
  then have u: "updateQuantity p q c = removeFromCart p c" for c
    by (simp add: updateQuantity_def)
  show "updateQuantity p q cart = removeFromCart p cart" by (rule u)
  show "p \<notin> id' ` set (updateQuantity p q cart)" by (simp add: u ids_removeFromCart)
  show "filter (\<lambda>item. id' item \<noteq> p) (updateQuantity p q cart) = filter (\<lambda>item. id' item \<noteq> p) cart"
    by (simp add: u removeFromCart_def)
  show "updateQuantity p q (runCart ops) = runCart (filter (\<lambda>op. \<not> addsProduct p op) ops)"
    by (simp add: u removeFromCart_runCart)
  then show "cartCount (updateQuantity p q (runCart ops)) = cartCount (runCart (filter (\<lambda>op. \<not> addsProduct p op) ops))"
    by simp
  show "cartTotal (updateQuantity p q (runCart ops)) = cartTotal (runCart (filter (\<lambda>op. \<not> addsProduct p op) ops))"
    by (simp add: u removeFromCart_runCart)
next
  assume "0 < q"
  then show "length (updateQuantity p q cart) = length cart" by (simp add: updateQuantity_def)
next
  assume "0 < q"
  then show "\<forall>i < length cart. updateQuantity p q cart ! i =
            (if id' (cart ! i) = p then (cart ! i)\<lparr>quantity := q\<rparr> else cart ! i)"
    by (simp add: updateQuantity_def)
qed

lemma positive_addToCart:
  "\<forall>item \<in> set cart. 0 < quantity item \<Longrightarrow> \<forall>item \<in> set (addToCart x cart). 0 < quantity item"
  by (cases "find (\<lambda>item. id' item = id' x) cart") (auto simp: addToCart_def)

lemma positive_applyCartOp:
  "\<forall>item \<in> set cart. 0 < quantity item \<Longrightarrow> \<forall>item \<in> set (applyCartOp op cart). 0 < quantity item"
proof (cases op)
  case (AddToCart x)
  assume "\<forall>item \<in> set cart. 0 < quantity item"
  with AddToCart show ?thesis using positive_addToCart by simp
next
  case (RemoveFromCart k)
  assume "\<forall>item \<in> set cart. 0 < quantity item"
  with RemoveFromCart show ?thesis by (simp add: removeFromCart_def)
next
  case (UpdateQuantity k q)
  assume "\<forall>item \<in> set cart. 0 < quantity item"
  with UpdateQuantity show ?thesis by (auto simp: updateQuantity_def removeFromCart_def)
next
  case ClearCart
  then show ?thesis by (simp add: clearCart_def)
qed

text \<open>
  Claim C9. In every cart reached from the empty cart by \<^verbatim>\<open>addToCart\<close>,
  \<^verbatim>\<open>removeFromCart\<close>, \<^verbatim>\<open>updateQuantity\<close> and \<^verbatim>\<open>clearCart\<close>, every line item has a
  quantity above zero; an \<^verbatim>\<open>updateQuantity\<close> with a quantity that is not positive stores
  nothing: it removes the product's line item and leaves only items that were there before.
\<close>

theorem cart_quantities_positive:
  "(\<forall>item \<in> set (runCart ops). 0 < quantity item)
   \<and> (q \<le> 0 \<longrightarrow> p \<notin> id' ` set (updateQuantity p q cart)
        \<and> (\<forall>item \<in> set (updateQuantity p q cart). item \<in> set cart))"
proof -
  have "\<forall>item \<in> set (runCart ops). 0 < quantity item"
  proof (induction ops rule: rev_induct)
    case Nil
    show ?case by (simp add: runCart_def)
  next
    case (snoc op ops)
    then show ?case using positive_applyCartOp by (simp add: runCart_snoc)
  qed
  moreover have "q \<le> 0 \<longrightarrow> p \<notin> id' ` set (updateQuantity p q cart)
        \<and> (\<forall>item \<in> set (updateQuantity p q cart). item \<in> set cart)"
    by (auto simp: updateQuantity_def removeFromCart_def)
  ultimately show ?thesis by blast
qed

text \<open>
  Claim C10. \<^verbatim>\<open>updateQuantity\<close> with a positive quantity for a product that has no line
  item leaves the cart as it is: no item is created, none is changed.
\<close>

theorem updateQuantity_absent_unchanged:
  "0 < q \<Longrightarrow> productId \<notin> id' ` set cart \<Longrightarrow> updateQuantity productId q cart = cart"
proof -
  assume q: "0 < q" and "productId \<notin> id' ` set cart"
  then have "\<forall>item \<in> set cart. id' item \<noteq> productId" by (auto simp: image_iff)
  then show ?thesis using q by (simp add: updateQuantity_def map_if_absent)
qed

subsection \<open>Session and registry\<close>

lemma find_Some_first:
  "find P xs = Some x \<Longrightarrow> x \<in> set xs \<and> P x"
  by (induction xs) (auto split: if_splits)

lemma find_None_all: "(find P xs = None) = (\<forall>x \<in> set xs. \<not> P x)"
  by (induction xs) auto

lemma runAuth_snoc: "runAuth (ops @ [op]) = applyAuthOp op (runAuth ops)"
  by (simp add: runAuth_def)

lemma login_users: "users (snd (login us e p s)) = users s"
  by (simp add: login_def Let_def split: option.splits)

lemma login_stale_fails:
  "\<not> list_ex (\<lambda>u. User.email u = e) us \<Longrightarrow> login us e p s = (False, s)"
proof -
  assume "\<not> list_ex (\<lambda>u. User.email u = e) us"
  then have "\<forall>u \<in> set us. \<not> (User.email u = e \<and> password u = p)"
    by (simp add: list_ex_iff)
  then have "find (\<lambda>u. User.email u = e \<and> password u = p) us = None"
    by (simp add: find_None_all)
  then show ?thesis by (simp add: login_def)
qed

lemma register_result:
  "ctx_register n e p s =
     (if e \<in> User.email ` set (users s) then (False, s)
      else (True, s\<lparr>users := users s @ [\<lparr>User.name = n, User.email = e, password = p\<rparr>],
                     stored_users := Some (users s @ [\<lparr>User.name = n, User.email = e, password = p\<rparr>])\<rparr>))"
proof (cases "list_ex (\<lambda>u. User.email u = e) (users s)")
  case True
  then have "e \<in> User.email ` set (users s)" by (auto simp: list_ex_iff)
  with True show ?thesis by (simp add: ctx_register_def register_def)
next
  case False
  then have "e \<notin> User.email ` set (users s)" by (auto simp: list_ex_iff)
  with False show ?thesis
    by (simp add: ctx_register_def register_def Let_def login_stale_fails)
qed

lemma register_keeps_session: "currentUser (snd (ctx_register n e p s)) = currentUser s"
  by (simp add: register_result)

text \<open>
  Claim C5. \<^verbatim>\<open>login\<close> returns true exactly when some stored identity has that email and
  that password. On success the session and its persisted copy are the redacted form of
  the first such identity, and the registry is untouched; on failure, a wrong password for
  a known email included, the whole state is unchanged.
\<close>

theorem login_succeeds_iff_credentials_match:
  "fst (ctx_login e p s) = (\<exists>u \<in> set (users s). User.email u = e \<and> password u = p)
   \<and> (fst (ctx_login e p s) \<longrightarrow>
        (\<exists>u \<in> set (users s). User.email u = e \<and> password u = p
           \<and> find (\<lambda>u. User.email u = e \<and> password u = p) (users s) = Some u
           \<and> currentUser (snd (ctx_login e p s)) = Some (redacted u)
           \<and> stored_currentUser (snd (ctx_login e p s)) = Some (redacted u))
        \<and> users (snd (ctx_login e p s)) = users s
        \<and> stored_users (snd (ctx_login e p s)) = stored_users s)
   \<and> (\<not> fst (ctx_login e p s) \<longrightarrow> snd (ctx_login e p s) = s)"
proof (cases "find (\<lambda>u. User.email u = e \<and> password u = p) (users s)")
  case None
  then have "\<not> (\<exists>u \<in> set (users s). User.email u = e \<and> password u = p)"
    by (simp add: find_None_all)
  with None show ?thesis by (simp add: ctx_login_def login_def)
next
  case (Some u)
  from find_Some_first [OF Some] have u: "u \<in> set (users s)" "User.email u = e" "password u = p"
    by simp_all
  then have ex: "\<exists>u \<in> set (users s). User.email u = e \<and> password u = p" by blast
  have r: "ctx_login e p s = (True, s\<lparr>currentUser := Some (redacted u), stored_currentUser := Some (redacted u)\<rparr>)"
    using Some by (simp add: ctx_login_def login_def redacted_def Let_def)
  have "\<exists>u \<in> set (users s). User.email u = e \<and> password u = p
           \<and> find (\<lambda>u. User.email u = e \<and> password u = p) (users s) = Some u
           \<and> currentUser (snd (ctx_login e p s)) = Some (redacted u)
           \<and> stored_currentUser (snd (ctx_login e p s)) = Some (redacted u)"
    using u Some r by (intro bexI [of _ u]) simp_all
  with ex r show ?thesis by simp
qed

lemma distinct_emails_applyAuthOp:
  "distinct (map User.email (users s)) \<Longrightarrow> distinct (map User.email (users (applyAuthOp op s)))"
proof (cases op)
  case (Register n e p)
  assume "distinct (map User.email (users s))"
  with Register show ?thesis by (simp add: register_result)
next
  case (Login e p)
  assume "distinct (map User.email (users s))"
  with Login show ?thesis by (simp add: ctx_login_def login_users)
next
  case Logout
  assume "distinct (map User.email (users s))"
  with Logout show ?thesis by (simp add: logout_def)
qed

lemma distinct_emails_runAuth: "distinct (map User.email (users (runAuth ops)))"
proof (induction ops rule: rev_induct)
  case Nil
  show ?case by (simp add: runAuth_def initialAuth_def)
next
  case (snoc op ops)
  then show ?case by (simp add: runAuth_snoc distinct_emails_applyAuthOp)
qed

lemma distinct_filter_one:
  "distinct (map f xs) \<Longrightarrow> k \<in> f ` set xs \<Longrightarrow> length (filter (\<lambda>x. f x = k) xs) = 1"
proof (induction xs)
  case Nil
  then show ?case by simp
next
  case (Cons a xs)
  show ?case
  proof (cases "f a = k")
    case True
    with Cons.prems have "\<forall>x \<in> set xs. f x \<noteq> k" by (auto simp: image_iff)
    then have "filter (\<lambda>x. f x = k) xs = []" by (simp add: filter_empty_conv)
    with True show ?thesis by simp
  next
    case False
    with Cons show ?thesis by auto
  qed
qed

text \<open>
  Claim C6. In every state reached from the empty registry by register, login and logout,
  no two stored identities share an email. Registering an email that is already stored
  returns false and leaves the state as it is, with exactly one identity for that email;
  in particular a second registration of the same email, right after a first one, fails
  and the registry holds one identity with it.
\<close>

theorem registry_emails_unique:
  "distinct (map User.email (users (runAuth ops)))
   \<and> (e \<in> User.email ` set (users (runAuth ops)) \<longrightarrow>
        ctx_register n e p (runAuth ops) = (False, runAuth ops)
        \<and> length (filter (\<lambda>u. User.email u = e) (users (runAuth ops))) = 1
        \<and> length (filter (\<lambda>u. User.email u = e) (users (snd (ctx_register n e p (runAuth ops))))) = 1)
   \<and> length (filter (\<lambda>u. User.email u = e)
         (users (snd (ctx_register n' e p' (snd (ctx_register n e p (runAuth ops))))))) = 1
   \<and> \<not> fst (ctx_register n' e p' (snd (ctx_register n e p (runAuth ops))))"
proof -
  let ?s = "runAuth ops"
  have d: "distinct (map User.email (users ?s))" by (rule distinct_emails_runAuth)
  have dup: "ctx_register n e p ?s = (False, ?s)
        \<and> length (filter (\<lambda>u. User.email u = e) (users ?s)) = 1
        \<and> length (filter (\<lambda>u. User.email u = e) (users (snd (ctx_register n e p ?s)))) = 1"
    if "e \<in> User.email ` set (users ?s)"
    using that d by (simp add: register_result distinct_filter_one)
  let ?s1 = "snd (ctx_register n e p ?s)"
  have s1: "?s1 = applyAuthOp (Register n e p) ?s" by simp
  have d1: "distinct (map User.email (users ?s1))"
    unfolding s1 using d by (rule distinct_emails_applyAuthOp)
  have in1: "e \<in> User.email ` set (users ?s1)"
    by (simp add: register_result)
  have second: "ctx_register n' e p' ?s1 = (False, ?s1)"
    using in1 by (simp add: register_result [of n' e p' ?s1])
  have one: "length (filter (\<lambda>u. User.email u = e) (users ?s1)) = 1"
    using d1 in1 by (rule distinct_filter_one)
  from d dup second one show ?thesis by simp
qed

text \<open>
  Claim C1, evaluated on the code. Registering Ali on the empty registry returns true and
  stores the identity, but the session stays empty: the \<^verbatim>\<open>login\<close> that \<^verbatim>\<open>register\<close>
  calls still searches the list captured before the new identity was added. A login from
  the next render does open the session for Ali.
\<close>

theorem register_does_not_open_session:
  "ctx_register ''Ali'' ''ali@example.com'' (Some ''secret'') initialAuth =
     (True, \<lparr>currentUser = None,
             users = [\<lparr>User.name = ''Ali'', User.email = ''ali@example.com'', password = Some ''secret''\<rparr>],
             stored_users = Some [\<lparr>User.name = ''Ali'', User.email = ''ali@example.com'', password = Some ''secret''\<rparr>],
             stored_currentUser = None\<rparr>)
   \<and> currentUser (snd (ctx_login ''ali@example.com'' (Some ''secret'')
         (snd (ctx_register ''Ali'' ''ali@example.com'' (Some ''secret'') initialAuth))))
       = Some \<lparr>User.name = ''Ali'', User.email = ''ali@example.com'', password = None\<rparr>"
  by (simp add: ctx_register_def register_def ctx_login_def login_def initialAuth_def Let_def)

subsection \<open>Route dispatch\<close>

lemma digit_nth: "d < 10 \<Longrightarrow> isDigit (''0123456789'' ! d) \<and> digitValue (''0123456789'' ! d) = d"
proof -
  assume "d < 10"
  then have "d \<in> {0,1,2,3,4,5,6,7,8,9}" by auto
  then show ?thesis by (auto simp: isDigit_def digitValue_def)
qed

lemma mathInt_snoc: "mathInt (ds @ [c]) = 10 * mathInt ds + digitValue c"
  by (simp add: mathInt_def)

lemma toString_nat_digits:
  "toString_nat n \<noteq> [] \<and> list_all isDigit (toString_nat n) \<and> mathInt (toString_nat n) = n"
proof (induction n rule: toString_nat.induct)
  case (1 n)
  show ?case
  proof (cases "n < 10")
    case True
    then have "toString_nat n = [''0123456789'' ! n]" by (simp add: toString_nat.simps)
    with digit_nth [OF True] show ?thesis by (simp add: mathInt_def)
  next
    case False
    then have eq: "toString_nat n = toString_nat (n div 10) @ [''0123456789'' ! (n mod 10)]"
      by (simp add: toString_nat.simps)
    have "n mod 10 < 10" by simp
    from digit_nth [OF this] 1 [OF False] show ?thesis
      by (simp add: eq mathInt_snoc)
  qed
qed

lemma toDouble_exact: "n \<le> 2 ^ 53 \<Longrightarrow> toDouble n = Num (int n)"
  by (simp add: toDouble_def)

lemma productMatch_digits:
  "ds \<noteq> [] \<Longrightarrow> list_all isDigit ds \<Longrightarrow> productMatch (''#/product/'' @ ds) = Some ds"
  by (simp add: productMatch_def)

lemma productMatch_Some:
  "productMatch route = Some ds \<Longrightarrow> route = ''#/product/'' @ ds \<and> ds \<noteq> [] \<and> list_all isDigit ds"
proof -
  assume a: "productMatch route = Some ds"
  let ?pre = "''#/product/''"
  from a have t: "take (length ?pre) route = ?pre" and d: "ds = drop (length ?pre) route"
    and n: "ds \<noteq> []" "list_all isDigit ds"
    by (auto simp: productMatch_def Let_def split: if_splits)
  have "route = take (length ?pre) route @ drop (length ?pre) route" by simp
  with t d have "route = ?pre @ ds" by metis
  with n show ?thesis by simp
qed


text \<open>
  Claim C7. \<^verbatim>\<open>renderPage\<close> sends \<^verbatim>\<open>#/product/42\<close> to the product page with id 42;
  every fragment \<^verbatim>\<open>#/product/\<close> followed by one or more decimal digits goes to the
  product page, with the id that \<^verbatim>\<open>parseInt\<close> gives, which is the id \<open>k\<close> itself for the
  fragment built from any \<open>k\<close> up to \<open>2^53\<close> (beyond, the id is the nearest double:
  \<^verbatim>\<open>#/product/9007199254740993\<close> gives 9007199254740992); each static fragment goes to
  its page; every route that is neither a static fragment nor such a product fragment,
  \<^verbatim>\<open>#/bogus\<close> for one, goes to the home page.
\<close>

theorem renderPage_dispatch:
  "renderPage ''#/product/42'' = ProductDetailPage (Num 42)
   \<and> renderPage ''#/'' = HomePage
   \<and> renderPage ''#/shop'' = ShopPage
   \<and> renderPage ''#/about'' = AboutPage
   \<and> renderPage ''#/contact'' = ContactPage
   \<and> renderPage ''#/checkout'' = CheckoutPage
   \<and> renderPage ''#/auth'' = AuthPage
   \<and> renderPage ''#/refund-policy'' = RefundPolicyPage
   \<and> renderPage ''#/privacy-policy'' = PrivacyPolicyPage
   \<and> renderPage ''#/terms'' = TermsAndConditionsPage
   \<and> renderPage ''#/bogus'' = HomePage
   \<and> renderPage ''#/product/9007199254740993'' = ProductDetailPage (Num 9007199254740992)
   \<and> (ds \<noteq> [] \<and> set ds \<subseteq> set ''0123456789''
        \<longrightarrow> renderPage (''#/product/'' @ ds) = ProductDetailPage (parseInt ds))
   \<and> (k \<le> 2 ^ 53
        \<longrightarrow> renderPage (''#/product/'' @ toString_nat k) = ProductDetailPage (Num (int k)))
   \<and> (route \<notin> {''#/shop'', ''#/about'', ''#/contact'', ''#/checkout'', ''#/auth'',
                  ''#/refund-policy'', ''#/privacy-policy'', ''#/terms''}
        \<and> \<not> (\<exists>ds. ds \<noteq> [] \<and> set ds \<subseteq> set ''0123456789'' \<and> route = ''#/product/'' @ ds)
        \<longrightarrow> renderPage route = HomePage)"
proof -
  have fixed:
    "renderPage ''#/product/42'' = ProductDetailPage (Num 42)"
    "renderPage ''#/'' = HomePage"
    "renderPage ''#/shop'' = ShopPage"
    "renderPage ''#/about'' = AboutPage"
    "renderPage ''#/contact'' = ContactPage"
    "renderPage ''#/checkout'' = CheckoutPage"
    "renderPage ''#/auth'' = AuthPage"
    "renderPage ''#/refund-policy'' = RefundPolicyPage"
    "renderPage ''#/privacy-policy'' = PrivacyPolicyPage"
    "renderPage ''#/terms'' = TermsAndConditionsPage"
    "renderPage ''#/bogus'' = HomePage"
    by (simp_all add: renderPage_def productMatch_def isDigit_def parseInt_def mathInt_def
        digitValue_def toDouble_def)
  have m: "mathInt ''9007199254740993'' = 9007199254740993"
    by (simp add: mathInt_def digitValue_def)
  have bl: "bitLength 9007199254740993 = 54"
    by (simp add: bitLength.simps)
  have "toDouble 9007199254740993 = Num 9007199254740992"
    by (simp add: toDouble_def bl Let_def)
  with m have "parseInt ''9007199254740993'' = Num 9007199254740992"
    by (simp only: parseInt_def)
  moreover have "productMatch ''#/product/9007199254740993'' = Some ''9007199254740993''"
    by (simp add: productMatch_def isDigit_def)
  ultimately have big: "renderPage ''#/product/9007199254740993'' = ProductDetailPage (Num 9007199254740992)"
    by (simp only: renderPage_def option.case)
  have digits: "ds \<noteq> [] \<and> set ds \<subseteq> set ''0123456789''
        \<longrightarrow> renderPage (''#/product/'' @ ds) = ProductDetailPage (parseInt ds)"
  proof (intro impI, elim conjE)
    assume ne: "ds \<noteq> []" and dg: "set ds \<subseteq> set ''0123456789''"
    from dg have "list_all isDigit ds" unfolding list_all_iff isDigit_def by blast
    with ne have "productMatch (''#/product/'' @ ds) = Some ds" by (rule productMatch_digits)
    then show "renderPage (''#/product/'' @ ds) = ProductDetailPage (parseInt ds)"
      by (simp only: renderPage_def option.case)
  qed
  have prod: "k \<le> 2 ^ 53
        \<longrightarrow> renderPage (''#/product/'' @ toString_nat k) = ProductDetailPage (Num (int k))"
  proof
    assume k: "k \<le> 2 ^ 53"
    from toString_nat_digits [of k]
    have d: "toString_nat k \<noteq> []" "list_all isDigit (toString_nat k)"
      and v: "mathInt (toString_nat k) = k" by blast+
    from d have "productMatch (''#/product/'' @ toString_nat k) = Some (toString_nat k)"
      by (rule productMatch_digits)
    moreover from v k have "parseInt (toString_nat k) = Num (int k)"
      by (simp only: parseInt_def toDouble_exact)
    ultimately show "renderPage (''#/product/'' @ toString_nat k) = ProductDetailPage (Num (int k))"
      by (simp only: renderPage_def option.case)
  qed
  have other: "route \<notin> {''#/shop'', ''#/about'', ''#/contact'', ''#/checkout'', ''#/auth'',
                  ''#/refund-policy'', ''#/privacy-policy'', ''#/terms''}
        \<and> \<not> (\<exists>ds. ds \<noteq> [] \<and> set ds \<subseteq> set ''0123456789'' \<and> route = ''#/product/'' @ ds)
        \<longrightarrow> renderPage route = HomePage"
  proof (intro impI, elim conjE)
    assume st: "route \<notin> {''#/shop'', ''#/about'', ''#/contact'', ''#/checkout'', ''#/auth'',
                  ''#/refund-policy'', ''#/privacy-policy'', ''#/terms''}"
    assume np: "\<not> (\<exists>ds. ds \<noteq> [] \<and> set ds \<subseteq> set ''0123456789'' \<and> route = ''#/product/'' @ ds)"
    show "renderPage route = HomePage"
    proof (cases "productMatch route")
      case None
      with st show ?thesis by (simp add: renderPage_def)
    next
      case (Some ds)
      from productMatch_Some [OF this]
      have m: "route = ''#/product/'' @ ds" "ds \<noteq> []" "list_all isDigit ds" by blast+
      from m(3) have "set ds \<subseteq> set ''0123456789''"
        unfolding list_all_iff isDigit_def by blast
      with m(1,2) np show ?thesis by blast
    qed
  qed
  show ?thesis by (intro conjI) (rule fixed big digits prod other)+
qed

subsection \<open>Checkout\<close>

lemma foldl_appendItemLine:
  "foldl appendItemLine message cart =
     message @ concat (map (\<lambda>item. ''- '' @ Product.name item @ '' (x'' @ toString (quantity item)
        @ '') - Rs '' @ toString (price item * quantity item) @ nl) cart)"
  by (induction cart arbitrary: message) (simp_all add: appendItemLine_def)

lemma message_form:
  "constructStoreOrderMessage bd cart =
     (orderHeader bd @ nl) @ concat (map (\<lambda>item. ''- '' @ Product.name item @ '' (x'' @ toString (quantity item)
        @ '') - Rs '' @ toString (price item * quantity item) @ nl) cart)
     @ nl @ ''*Total: Rs '' @ toString (\<Sum>item \<leftarrow> cart. price item * quantity item) @ ''*''"
  by (simp add: constructStoreOrderMessage_def Let_def foldl_appendItemLine cartTotal_sum orderHeader_def
      del: append.simps append_Cons append_Nil)

lemma toString_1500: "toString 1500 = ''1500''" "toString 1 = ''1''"
  by (simp_all add: toString_def toString_nat.simps)

lemma shilajit_message:
  "constructStoreOrderMessage bd [item\<lparr>Product.name := ''Shilajit'', quantity := 1, price := 1500\<rparr>]
   = orderHeader bd @ (nl @ ''- Shilajit (x1) - Rs 1500'' @ nl) @ (nl @ ''*Total: Rs 1500*'')"
  by (simp add: message_form toString_1500)


lemma splitLines_not_Nil: "splitLines s \<noteq> []"
  by (induction s) (auto split: list.splits)

lemma splitLines_append_nl: "splitLines (a @ nl @ b) = splitLines a @ splitLines b"
proof (induction a)
  case Nil
  show ?case by (simp add: nl_def)
next
  case (Cons c a)
  obtain l ls where ls: "splitLines a = l # ls"
    using splitLines_not_Nil [of a] by (cases "splitLines a") auto
  with Cons show ?case by simp
qed

lemma splitLines_single: "CHR 0x0A \<notin> set l \<Longrightarrow> splitLines l = [l]"
  by (induction l) auto

lemma splitLines_tail:
  "CHR 0x0A \<notin> set l \<Longrightarrow> CHR 0x0A \<notin> set t \<Longrightarrow>
   splitLines (h @ (nl @ l @ nl) @ (nl @ t)) = splitLines h @ [l, [], t]"
proof -
  assume l: "CHR 0x0A \<notin> set l" and t: "CHR 0x0A \<notin> set t"
  have "h @ (nl @ l @ nl) @ (nl @ t) = h @ nl @ (l @ nl @ ([] @ nl @ t))" by simp
  also have "splitLines \<dots> = splitLines h @ splitLines l @ splitLines [] @ splitLines t"
    by (simp only: splitLines_append_nl)
  finally show ?thesis using l t by (simp add: splitLines_single)
qed

text \<open>
  Claim C2, as the code has it. The order message is the header with the customer fields,
  then one line per cart item, in cart order, of the form
  \<^verbatim>\<open>- <name> (x<quantity>) - Rs <price * quantity>\<close>, then an empty line and the last line
  \<^verbatim>\<open>*Total: Rs <total>*\<close>, the total being the sum of price times quantity over the cart.
  For customer Ali and a cart of one Shilajit, quantity 1 at 1500, the message has the
  line \<^verbatim>\<open>- Shilajit (x1) - Rs 1500\<close> and its last line is \<^verbatim>\<open>*Total: Rs 1500*\<close>; the
  texts \<^verbatim>\<open>Shilajit (x1) - Rs 1500\<close> and \<^verbatim>\<open>Total: Rs 1500\<close> occur inside these lines,
  and the email body, where the asterisks are stripped, ends with the line
  \<^verbatim>\<open>Total: Rs 1500\<close>.
\<close>

theorem order_message_lines:
  "constructStoreOrderMessage bd cart =
     orderHeader bd @ nl
     @ concat (map (\<lambda>item. ''- '' @ Product.name item @ '' (x'' @ toString (quantity item)
                      @ '') - Rs '' @ toString (price item * quantity item) @ nl) cart)
     @ nl @ ''*Total: Rs '' @ toString (\<Sum>item \<leftarrow> cart. price item * quantity item) @ ''*''
   \<and> (let msg = constructStoreOrderMessage (bd\<lparr>firstName := ''Ali''\<rparr>)
                  [item\<lparr>Product.name := ''Shilajit'', quantity := 1, price := 1500\<rparr>]
      in sublist ''Name: Ali '' msg
       \<and> sublist (nl @ ''- Shilajit (x1) - Rs 1500'' @ nl) msg
       \<and> sublist ''Shilajit (x1) - Rs 1500'' msg
       \<and> suffix (nl @ ''*Total: Rs 1500*'') msg
       \<and> sublist ''Total: Rs 1500'' msg
       \<and> suffix (nl @ ''Total: Rs 1500'') (filter (\<lambda>c. c \<noteq> CHR ''*'') msg)
       \<and> ''- Shilajit (x1) - Rs 1500'' \<in> set (splitLines msg)
       \<and> last (splitLines msg) = ''*Total: Rs 1500*''
       \<and> last (splitLines (filter (\<lambda>c. c \<noteq> CHR ''*'') msg)) = ''Total: Rs 1500'')"
proof -
  define bd' where "bd' = bd\<lparr>firstName := ''Ali''\<rparr>"
  define msg where "msg = constructStoreOrderMessage bd'
     [item\<lparr>Product.name := ''Shilajit'', quantity := 1, price := 1500\<rparr>]"
  define h where "h = orderHeader bd'"
  have form: "msg = h @ (nl @ ''- Shilajit (x1) - Rs 1500'' @ nl) @ (nl @ ''*Total: Rs 1500*'')"
    unfolding msg_def h_def by (rule shilajit_message)
  have general: "constructStoreOrderMessage bd cart =
     orderHeader bd @ nl
     @ concat (map (\<lambda>item. ''- '' @ Product.name item @ '' (x'' @ toString (quantity item)
                      @ '') - Rs '' @ toString (price item * quantity item) @ nl) cart)
     @ nl @ ''*Total: Rs '' @ toString (\<Sum>item \<leftarrow> cart. price item * quantity item) @ ''*''"
    using message_form [of bd cart] by (simp only: append_assoc)
  have hh: "h = (''*New Order from Skardu Organic*'' @ nl @ nl @ ''*Customer Details:*'' @ nl)
      @ ''Name: Ali '' @ (lastName bd @ nl
     @ ''Email: '' @ BillingDetails.email bd @ nl
     @ ''Phone: '' @ phone bd @ nl
     @ ''Address: '' @ address bd @ '', '' @ city bd @ '', '' @ state bd @ '' '' @ zip' bd @ nl @ nl
     @ ''*Order Summary:*'')"
    by (simp add: h_def bd'_def orderHeader_def)
  have e1: "msg = (''*New Order from Skardu Organic*'' @ nl @ nl @ ''*Customer Details:*'' @ nl)
      @ ''Name: Ali '' @ ((lastName bd @ nl
     @ ''Email: '' @ BillingDetails.email bd @ nl
     @ ''Phone: '' @ phone bd @ nl
     @ ''Address: '' @ address bd @ '', '' @ city bd @ '', '' @ state bd @ '' '' @ zip' bd @ nl @ nl
     @ ''*Order Summary:*'') @ (nl @ ''- Shilajit (x1) - Rs 1500'' @ nl) @ (nl @ ''*Total: Rs 1500*''))"
    by (simp only: form hh append_assoc)
  have s1: "sublist ''Name: Ali '' msg"
    by (subst e1) (rule sublist_appendI)
  have s2: "sublist (nl @ ''- Shilajit (x1) - Rs 1500'' @ nl) msg"
    by (subst form) (rule sublist_appendI)
  have e3: "msg = (h @ nl @ ''- '') @ ''Shilajit (x1) - Rs 1500'' @ (nl @ nl @ ''*Total: Rs 1500*'')"
    by (simp add: form)
  have s3: "sublist ''Shilajit (x1) - Rs 1500'' msg"
    by (subst e3) (rule sublist_appendI)
  have e4: "msg = (h @ nl @ ''- Shilajit (x1) - Rs 1500'' @ nl) @ (nl @ ''*Total: Rs 1500*'')"
    by (simp add: form)
  then have s4: "suffix (nl @ ''*Total: Rs 1500*'') msg" by (rule suffixI)
  have e5: "msg = (h @ nl @ ''- Shilajit (x1) - Rs 1500'' @ nl @ nl @ ''*'') @ ''Total: Rs 1500'' @ ''*''"
    by (simp add: form)
  have s5: "sublist ''Total: Rs 1500'' msg"
    by (subst e5) (rule sublist_appendI)
  have e6: "filter (\<lambda>c. c \<noteq> CHR ''*'') msg =
          filter (\<lambda>c. c \<noteq> CHR ''*'') h @ (nl @ ''- Shilajit (x1) - Rs 1500'' @ nl) @ (nl @ ''Total: Rs 1500'')"
    by (simp add: form nl_def)
  then have "filter (\<lambda>c. c \<noteq> CHR ''*'') msg =
          (filter (\<lambda>c. c \<noteq> CHR ''*'') h @ nl @ ''- Shilajit (x1) - Rs 1500'' @ nl) @ (nl @ ''Total: Rs 1500'')"
    by (simp only: append_assoc)
  then have s6: "suffix (nl @ ''Total: Rs 1500'') (filter (\<lambda>c. c \<noteq> CHR ''*'') msg)"
    by (rule suffixI)
  have sl: "splitLines msg = splitLines h @ [''- Shilajit (x1) - Rs 1500'', [], ''*Total: Rs 1500*'']"
    unfolding form by (rule splitLines_tail) simp_all
  have s7: "''- Shilajit (x1) - Rs 1500'' \<in> set (splitLines msg)"
    by (simp only: sl set_append) simp
  have s8: "last (splitLines msg) = ''*Total: Rs 1500*''"
    by (simp only: sl) simp
  have "splitLines (filter (\<lambda>c. c \<noteq> CHR ''*'') msg)
          = splitLines (filter (\<lambda>c. c \<noteq> CHR ''*'') h) @ [''- Shilajit (x1) - Rs 1500'', [], ''Total: Rs 1500'']"
    unfolding e6 by (rule splitLines_tail) simp_all
  then have s9: "last (splitLines (filter (\<lambda>c. c \<noteq> CHR ''*'') msg)) = ''Total: Rs 1500''"
    by simp
  from s1 s2 s3 s4 s5 s6 s7 s8 s9 have "let msg = msg in sublist ''Name: Ali '' msg
       \<and> sublist (nl @ ''- Shilajit (x1) - Rs 1500'' @ nl) msg
       \<and> sublist ''Shilajit (x1) - Rs 1500'' msg
       \<and> suffix (nl @ ''*Total: Rs 1500*'') msg
       \<and> sublist ''Total: Rs 1500'' msg
       \<and> suffix (nl @ ''Total: Rs 1500'') (filter (\<lambda>c. c \<noteq> CHR ''*'') msg)
       \<and> ''- Shilajit (x1) - Rs 1500'' \<in> set (splitLines msg)
       \<and> last (splitLines msg) = ''*Total: Rs 1500*''
       \<and> last (splitLines (filter (\<lambda>c. c \<noteq> CHR ''*'') msg)) = ''Total: Rs 1500''"
    unfolding Let_def by (intro conjI)
  then have "let msg = constructStoreOrderMessage (bd\<lparr>firstName := ''Ali''\<rparr>)
                  [item\<lparr>Product.name := ''Shilajit'', quantity := 1, price := 1500\<rparr>]
      in sublist ''Name: Ali '' msg
       \<and> sublist (nl @ ''- Shilajit (x1) - Rs 1500'' @ nl) msg
       \<and> sublist ''Shilajit (x1) - Rs 1500'' msg
       \<and> suffix (nl @ ''*Total: Rs 1500*'') msg
       \<and> sublist ''Total: Rs 1500'' msg
       \<and> suffix (nl @ ''Total: Rs 1500'') (filter (\<lambda>c. c \<noteq> CHR ''*'') msg)
       \<and> ''- Shilajit (x1) - Rs 1500'' \<in> set (splitLines msg)
       \<and> last (splitLines msg) = ''*Total: Rs 1500*''
       \<and> last (splitLines (filter (\<lambda>c. c \<noteq> CHR ''*'') msg)) = ''Total: Rs 1500''"
    unfolding msg_def bd'_def .
  with general show ?thesis by (rule conjI)
qed

text \<open>
  The same order read as the spec words it: no line of the message is the bare text
  \<^verbatim>\<open>Shilajit (x1) - Rs 1500\<close>, and the last line is not the bare text
  \<^verbatim>\<open>Total: Rs 1500\<close>.
\<close>

theorem order_message_bare_lines_absent:
  "splitLines (constructStoreOrderMessage sampleBilling
      [withQuantity (sampleProduct 1 ''Shilajit'' 1500) 1])
     = [''*New Order from Skardu Organic*'', [], ''*Customer Details:*'', ''Name: Ali Khan'',
        ''Email: ali@example.com'', ''Phone: +923001234567'',
        ''Address: 1 Main Road, Skardu, GB 16100'', [], ''*Order Summary:*'',
        ''- Shilajit (x1) - Rs 1500'', [], ''*Total: Rs 1500*'']
   \<and> ''Shilajit (x1) - Rs 1500'' \<notin> set (splitLines (constructStoreOrderMessage sampleBilling
      [withQuantity (sampleProduct 1 ''Shilajit'' 1500) 1]))
   \<and> last (splitLines (constructStoreOrderMessage sampleBilling
      [withQuantity (sampleProduct 1 ''Shilajit'' 1500) 1])) \<noteq> ''Total: Rs 1500''"
proof -
  have m: "constructStoreOrderMessage sampleBilling [withQuantity (sampleProduct 1 ''Shilajit'' 1500) 1]
     = orderHeader sampleBilling @ (nl @ ''- Shilajit (x1) - Rs 1500'' @ nl) @ (nl @ ''*Total: Rs 1500*'')"
    by (simp add: message_form toString_1500 sampleProduct_def)
  have h: "splitLines (orderHeader sampleBilling)
     = [''*New Order from Skardu Organic*'', [], ''*Customer Details:*'', ''Name: Ali Khan'',
        ''Email: ali@example.com'', ''Phone: +923001234567'',
        ''Address: 1 Main Road, Skardu, GB 16100'', [], ''*Order Summary:*'']"
    by (simp add: orderHeader_def sampleBilling_def nl_def)
  have "splitLines (constructStoreOrderMessage sampleBilling
      [withQuantity (sampleProduct 1 ''Shilajit'' 1500) 1])
     = splitLines (orderHeader sampleBilling) @ [''- Shilajit (x1) - Rs 1500'', [], ''*Total: Rs 1500*'']"
    unfolding m by (rule splitLines_tail) simp_all
  then show ?thesis by (simp add: h)
qed

text \<open>
  Claim C8. Either dispatch handler, on any cart and billing details, leaves the cart empty
  and keeps an order snapshot holding the items and the total of the cart as they were
  before the call, and the billing details as entered, which stay unchanged too.
\<close>

theorem checkout_dispatch_clears_cart_keeps_snapshot:
  "cartItems (snd (handleWhatsAppOrder enc s)) = []
   \<and> placedOrder (snd (handleWhatsAppOrder enc s)) =
        Some \<lparr>details = billingDetails s, items = cartItems s, total = cartTotal (cartItems s)\<rparr>
   \<and> billingDetails (snd (handleWhatsAppOrder enc s)) = billingDetails s
   \<and> cartItems (snd (handleEmailOrder enc s)) = []
   \<and> placedOrder (snd (handleEmailOrder enc s)) =
        Some \<lparr>details = billingDetails s, items = cartItems s, total = cartTotal (cartItems s)\<rparr>
   \<and> billingDetails (snd (handleEmailOrder enc s)) = billingDetails s
   \<and> fst (handleWhatsAppOrder enc s) = ''https://wa.me/923488875456?text=''
        @ enc (constructStoreOrderMessage (billingDetails s) (cartItems s))"
  by (simp add: handleWhatsAppOrder_def handleEmailOrder_def processOrder_def clearCart_def Let_def)

section \<open>Concrete instances\<close>

theorem updateQuantity_absent_unchanged_witness:
  "(0::int) < 3
   \<and> 2 \<notin> id' ` set [withQuantity (sampleProduct 1 ''Shilajit'' 1500) 1]
   \<and> updateQuantity 2 3 [withQuantity (sampleProduct 1 ''Shilajit'' 1500) 1]
       = [withQuantity (sampleProduct 1 ''Shilajit'' 1500) 1]"
proof -
  have h1: "(0::int) < 3" by simp
  have h2: "2 \<notin> id' ` set [withQuantity (sampleProduct 1 ''Shilajit'' 1500) 1]"
    by (simp add: sampleProduct_def)
  from updateQuantity_absent_unchanged [OF h1 h2] h1 h2 show ?thesis by simp
qed

lemma sample_cart:
  "runCart [AddToCart (sampleProduct 1 ''Shilajit'' 500), AddToCart (sampleProduct 2 ''Honey'' 1200),
            AddToCart (sampleProduct 1 ''Shilajit'' 500)]
   = [withQuantity (sampleProduct 1 ''Shilajit'' 500) 2, withQuantity (sampleProduct 2 ''Honey'' 1200) 1]"
  by (simp add: runCart_def addToCart_def sampleProduct_def withQuantity_record)

lemma sample_addAll:
  "addAll [sampleProduct 1 ''Shilajit'' 500, sampleProduct 2 ''Honey'' 1200, sampleProduct 1 ''Shilajit'' 500]
   = [withQuantity (sampleProduct 1 ''Shilajit'' 500) 2, withQuantity (sampleProduct 2 ''Honey'' 1200) 1]"
  by (simp add: addAll_def addToCart_def sampleProduct_def withQuantity_record)

theorem addToCart_sequence_totals_witness:
  "withQuantity (sampleProduct 1 ''Shilajit'' 500) 2
     \<in> set (addAll [sampleProduct 1 ''Shilajit'' 500, sampleProduct 2 ''Honey'' 1200,
                     sampleProduct 1 ''Shilajit'' 500])
   \<and> quantity (withQuantity (sampleProduct 1 ''Shilajit'' 500) 2) = 2
   \<and> int (count_list (map id' [sampleProduct 1 ''Shilajit'' 500, sampleProduct 2 ''Honey'' 1200,
                     sampleProduct 1 ''Shilajit'' 500]) 1) = 2
   \<and> cartCount (addAll [sampleProduct 1 ''Shilajit'' 500, sampleProduct 2 ''Honey'' 1200,
                     sampleProduct 1 ''Shilajit'' 500]) = 3
   \<and> cartTotal (addAll [sampleProduct 1 ''Shilajit'' 500, sampleProduct 2 ''Honey'' 1200,
                     sampleProduct 1 ''Shilajit'' 500]) = 2200"
proof -
  let ?ps = "[sampleProduct 1 ''Shilajit'' 500, sampleProduct 2 ''Honey'' 1200,
              sampleProduct 1 ''Shilajit'' 500]"
  have m: "withQuantity (sampleProduct 1 ''Shilajit'' 500) 2 \<in> set (addAll ?ps)"
    by (simp add: sample_addAll)
  have i: "id' (withQuantity (sampleProduct 1 ''Shilajit'' 500) 2) = 1"
    by (simp add: sampleProduct_def)
  from addToCart_sequence_totals [of ?ps]
  have q: "\<forall>item \<in> set (addAll ?ps). quantity item = int (count_list (map id' ?ps) (id' item))"
    and c: "cartCount (addAll ?ps) = int (length ?ps)"
    and t: "cartTotal (addAll ?ps) = (\<Sum>item \<leftarrow> addAll ?ps. price item * quantity item)"
    by blast+
  from q m i have "int (count_list (map id' ?ps) 1) = 2" by fastforce
  moreover from c have "cartCount (addAll ?ps) = 3" by simp
  moreover from t have "cartTotal (addAll ?ps) = 2200"
    unfolding sample_addAll by (simp add: sampleProduct_def)
  ultimately show ?thesis using m by simp
qed

theorem updateQuantity_nonpositive_is_removeFromCart_witness:
  "(0::int) \<le> 0
   \<and> updateQuantity 1 0 (runCart [AddToCart (sampleProduct 1 ''Shilajit'' 500),
         AddToCart (sampleProduct 2 ''Honey'' 1200), AddToCart (sampleProduct 1 ''Shilajit'' 500)])
       = [withQuantity (sampleProduct 2 ''Honey'' 1200) 1]
   \<and> cartCount (updateQuantity 1 0 (runCart [AddToCart (sampleProduct 1 ''Shilajit'' 500),
         AddToCart (sampleProduct 2 ''Honey'' 1200), AddToCart (sampleProduct 1 ''Shilajit'' 500)])) = 1
   \<and> cartTotal (updateQuantity 1 0 (runCart [AddToCart (sampleProduct 1 ''Shilajit'' 500),
         AddToCart (sampleProduct 2 ''Honey'' 1200), AddToCart (sampleProduct 1 ''Shilajit'' 500)])) = 1200
   \<and> (0::int) < 5
   \<and> (0::nat) < length [withQuantity (sampleProduct 1 ''Shilajit'' 500) 2]
   \<and> updateQuantity 1 5 [withQuantity (sampleProduct 1 ''Shilajit'' 500) 2] ! 0
       = withQuantity (sampleProduct 1 ''Shilajit'' 500) 5"
proof -
  let ?ops = "[AddToCart (sampleProduct 1 ''Shilajit'' 500),
         AddToCart (sampleProduct 2 ''Honey'' 1200), AddToCart (sampleProduct 1 ''Shilajit'' 500)]"
  have f: "filter (\<lambda>op. \<not> addsProduct 1 op) ?ops = [AddToCart (sampleProduct 2 ''Honey'' 1200)]"
    by (simp add: sampleProduct_def)
  have r: "runCart [AddToCart (sampleProduct 2 ''Honey'' 1200)] = [withQuantity (sampleProduct 2 ''Honey'' 1200) 1]"
    by (simp add: runCart_def addToCart_def)
  have le: "(0::int) \<le> 0" by simp
  from updateQuantity_nonpositive_is_removeFromCart [of 0 1 "runCart ?ops" ?ops] le
  have a: "updateQuantity 1 0 (runCart ?ops) = runCart (filter (\<lambda>op. \<not> addsProduct 1 op) ?ops)"
    by blast
  then have a': "updateQuantity 1 0 (runCart ?ops) = [withQuantity (sampleProduct 2 ''Honey'' 1200) 1]"
    by (simp only: f r)
  have lt: "(0::int) < 5" by simp
  let ?c = "[withQuantity (sampleProduct 1 ''Shilajit'' 500) 2]"
  from updateQuantity_nonpositive_is_removeFromCart [of 5 1 ?c ?ops] lt
  have "\<forall>i < length ?c. updateQuantity 1 5 ?c ! i =
            (if id' (?c ! i) = 1 then (?c ! i)\<lparr>quantity := 5\<rparr> else ?c ! i)"
    by blast
  then have b: "updateQuantity 1 5 ?c ! 0 = withQuantity (sampleProduct 1 ''Shilajit'' 500) 5"
    by (simp add: sampleProduct_def withQuantity_record)
  from a' b show ?thesis
    by (simp add: cartCount_def cartTotal_def sampleProduct_def)
qed

theorem cart_quantities_positive_witness:
  "withQuantity (sampleProduct 2 ''Honey'' 1200) 1
     \<in> set (runCart [AddToCart (sampleProduct 1 ''Shilajit'' 500),
         AddToCart (sampleProduct 2 ''Honey'' 1200), AddToCart (sampleProduct 1 ''Shilajit'' 500)])
   \<and> 0 < quantity (withQuantity (sampleProduct 2 ''Honey'' 1200) 1)
   \<and> (0::int) \<le> 0
   \<and> 1 \<notin> id' ` set (updateQuantity 1 0 [withQuantity (sampleProduct 1 ''Shilajit'' 500) 2,
                                           withQuantity (sampleProduct 2 ''Honey'' 1200) 1])"
proof -
  let ?ops = "[AddToCart (sampleProduct 1 ''Shilajit'' 500),
         AddToCart (sampleProduct 2 ''Honey'' 1200), AddToCart (sampleProduct 1 ''Shilajit'' 500)]"
  let ?c = "[withQuantity (sampleProduct 1 ''Shilajit'' 500) 2,
             withQuantity (sampleProduct 2 ''Honey'' 1200) 1]"
  have m: "withQuantity (sampleProduct 2 ''Honey'' 1200) 1 \<in> set (runCart ?ops)"
    by (simp add: sample_cart)
  have le: "(0::int) \<le> 0" by simp
  from cart_quantities_positive [of ?ops 0 1 ?c] le
  have "\<forall>item \<in> set (runCart ?ops). 0 < quantity item"
    and "1 \<notin> id' ` set (updateQuantity 1 0 ?c)" by blast+
  with m show ?thesis by simp
qed

lemma registered_ali:
  "runAuth [Register ''Ali'' ''ali@example.com'' (Some ''secret'')] =
     \<lparr>currentUser = None,
      users = [\<lparr>User.name = ''Ali'', User.email = ''ali@example.com'', password = Some ''secret''\<rparr>],
      stored_users = Some [\<lparr>User.name = ''Ali'', User.email = ''ali@example.com'', password = Some ''secret''\<rparr>],
      stored_currentUser = None\<rparr>"
  by (simp add: runAuth_def register_result initialAuth_def)

theorem login_succeeds_iff_credentials_match_witness:
  "fst (ctx_login ''ali@example.com'' (Some ''secret'')
         (runAuth [Register ''Ali'' ''ali@example.com'' (Some ''secret'')]))
   \<and> currentUser (snd (ctx_login ''ali@example.com'' (Some ''secret'')
         (runAuth [Register ''Ali'' ''ali@example.com'' (Some ''secret'')])))
       = Some \<lparr>User.name = ''Ali'', User.email = ''ali@example.com'', password = None\<rparr>
   \<and> \<not> fst (ctx_login ''ali@example.com'' (Some ''wrong'')
         (runAuth [Register ''Ali'' ''ali@example.com'' (Some ''secret'')]))
   \<and> snd (ctx_login ''ali@example.com'' (Some ''wrong'')
         (runAuth [Register ''Ali'' ''ali@example.com'' (Some ''secret'')]))
       = runAuth [Register ''Ali'' ''ali@example.com'' (Some ''secret'')]"
proof -
  let ?s = "runAuth [Register ''Ali'' ''ali@example.com'' (Some ''secret'')]"
  let ?ali = "\<lparr>User.name = ''Ali'', User.email = ''ali@example.com'', password = Some ''secret''\<rparr>"
  have us: "users ?s = [?ali]" by (simp add: registered_ali)
  have ok: "\<exists>u \<in> set (users ?s). User.email u = ''ali@example.com'' \<and> password u = Some ''secret''"
    by (simp add: us)
  have bad: "\<not> (\<exists>u \<in> set (users ?s). User.email u = ''ali@example.com'' \<and> password u = Some ''wrong'')"
    by (simp add: us)
  have fnd: "find (\<lambda>u. User.email u = ''ali@example.com'' \<and> password u = Some ''secret'') (users ?s) = Some ?ali"
    by (simp add: us)
  note good = login_succeeds_iff_credentials_match [of "''ali@example.com''" "Some ''secret''" ?s]
  note wrong = login_succeeds_iff_credentials_match [of "''ali@example.com''" "Some ''wrong''" ?s]
  from good ok have t: "fst (ctx_login ''ali@example.com'' (Some ''secret'') ?s)" by blast
  with good obtain u where
    "find (\<lambda>u. User.email u = ''ali@example.com'' \<and> password u = Some ''secret'') (users ?s) = Some u"
    "currentUser (snd (ctx_login ''ali@example.com'' (Some ''secret'') ?s)) = Some (redacted u)"
    by blast
  with fnd have c: "currentUser (snd (ctx_login ''ali@example.com'' (Some ''secret'') ?s))
       = Some \<lparr>User.name = ''Ali'', User.email = ''ali@example.com'', password = None\<rparr>"
    by (simp add: redacted_def)
  from wrong bad have f: "\<not> fst (ctx_login ''ali@example.com'' (Some ''wrong'') ?s)" by blast
  with wrong have k: "snd (ctx_login ''ali@example.com'' (Some ''wrong'') ?s) = ?s" by blast
  from t c f k show ?thesis by (intro conjI)
qed

theorem registry_emails_unique_witness:
  "''ali@example.com'' \<in> User.email ` set (users (runAuth [Register ''Ali'' ''ali@example.com'' (Some ''secret'')]))
   \<and> ctx_register ''Impostor'' ''ali@example.com'' (Some ''other'')
        (runAuth [Register ''Ali'' ''ali@example.com'' (Some ''secret'')])
       = (False, runAuth [Register ''Ali'' ''ali@example.com'' (Some ''secret'')])
   \<and> length (filter (\<lambda>u. User.email u = ''ali@example.com'')
        (users (runAuth [Register ''Ali'' ''ali@example.com'' (Some ''secret'')]))) = 1"
proof -
  let ?s = "runAuth [Register ''Ali'' ''ali@example.com'' (Some ''secret'')]"
  have m: "''ali@example.com'' \<in> User.email ` set (users ?s)"
    by (simp add: registered_ali)
  from registry_emails_unique [of "[Register ''Ali'' ''ali@example.com'' (Some ''secret'')]"
      "''ali@example.com''" "''Impostor''" "Some ''other''"] m
  have "ctx_register ''Impostor'' ''ali@example.com'' (Some ''other'') ?s = (False, ?s)"
    and "length (filter (\<lambda>u. User.email u = ''ali@example.com'') (users ?s)) = 1"
    by blast+
  with m show ?thesis by (intro conjI)
qed

theorem renderPage_dispatch_witness:
  "''#/bogus'' \<notin> {''#/shop'', ''#/about'', ''#/contact'', ''#/checkout'', ''#/auth'',
                  ''#/refund-policy'', ''#/privacy-policy'', ''#/terms''}
   \<and> \<not> (\<exists>ds. ds \<noteq> [] \<and> set ds \<subseteq> set ''0123456789'' \<and> ''#/bogus'' = ''#/product/'' @ ds)
   \<and> renderPage ''#/bogus'' = HomePage
   \<and> ''7'' \<noteq> [] \<and> set ''7'' \<subseteq> set ''0123456789''
   \<and> renderPage ''#/product/7'' = ProductDetailPage (Num 7)
   \<and> (1500::nat) \<le> 2 ^ 53
   \<and> renderPage ''#/product/1500'' = ProductDetailPage (Num 1500)"
proof -
  have a: "''#/bogus'' \<notin> {''#/shop'', ''#/about'', ''#/contact'', ''#/checkout'', ''#/auth'',
                  ''#/refund-policy'', ''#/privacy-policy'', ''#/terms''}" by simp
  have b: "\<not> (\<exists>ds. ds \<noteq> [] \<and> set ds \<subseteq> set ''0123456789'' \<and> ''#/bogus'' = ''#/product/'' @ ds)"
    by simp
  have c: "''7'' \<noteq> [] \<and> set ''7'' \<subseteq> set ''0123456789''" by simp
  have d: "(1500::nat) \<le> 2 ^ 53" by simp
  have p7: "parseInt ''7'' = Num 7"
    by (simp add: parseInt_def mathInt_def digitValue_def toDouble_def)
  have s1500: "toString_nat 1500 = ''1500''" by (simp add: toString_nat.simps)
  note inst = renderPage_dispatch [of "''7''" 1500 "''#/bogus''"]
  from inst a b have r1: "renderPage ''#/bogus'' = HomePage" by blast
  from inst c have "renderPage (''#/product/'' @ ''7'') = ProductDetailPage (parseInt ''7'')"
    by blast
  with p7 have r2: "renderPage ''#/product/7'' = ProductDetailPage (Num 7)" by simp
  from inst d have "renderPage (''#/product/'' @ toString_nat 1500) = ProductDetailPage (Num (int 1500))"
    by blast
  with s1500 have r3: "renderPage ''#/product/1500'' = ProductDetailPage (Num 1500)" by simp
  from a b r1 c r2 d r3 show ?thesis by (intro conjI) simp_all
qed

theorem checkout_dispatch_clears_cart_keeps_snapshot_witness:
  "cartItems (snd (handleWhatsAppOrder (\<lambda>m. m)
      \<lparr>cartItems = [withQuantity (sampleProduct 1 ''Shilajit'' 1500) 1], placedOrder = None,
        billingDetails = sampleBilling\<rparr>)) = []
   \<and> placedOrder (snd (handleWhatsAppOrder (\<lambda>m. m)
      \<lparr>cartItems = [withQuantity (sampleProduct 1 ''Shilajit'' 1500) 1], placedOrder = None,
        billingDetails = sampleBilling\<rparr>))
      = Some \<lparr>details = sampleBilling, items = [withQuantity (sampleProduct 1 ''Shilajit'' 1500) 1],
               total = 1500\<rparr>"
  using checkout_dispatch_clears_cart_keeps_snapshot [of "\<lambda>m. m"
      "\<lparr>cartItems = [withQuantity (sampleProduct 1 ''Shilajit'' 1500) 1], placedOrder = None,
        billingDetails = sampleBilling\<rparr>"]
  by (simp add: cartTotal_def sampleProduct_def)

end
